theory Spec2Isabelle
  imports Complex_Main "HOL-Library.AList"
begin

section \<open>The resilient call gateway of the pricing pipeline\<close>

text \<open>
  A shallow embedding of \<^verbatim>\<open>core/llm_client.py\<close> and
  \<^verbatim>\<open>core/vertex_ai_client.py\<close>. Conventions:
  \<^item> Python floats are read as real numbers; rounding is not modelled.
  \<^item> Python ints are \<open>int\<close>; loop indices of \<^verbatim>\<open>range\<close> are \<open>nat\<close>.
  \<^item> An exception is a value \<open>Inl e\<close> of a sum type; attribute updates made before the
    exception are kept in the returned state, as they are in Python.
  \<^item> The wall clock, the provider and the random generator are the environment: the clock
    is the field \<open>now\<close> of a \<open>world\<close>, advanced by sleeps and by the provider's
    latency; provider outcomes and random draws are read from oracles, by call number.
  \<^item> Calls run one after another: the locks of the source make each guarded block
    atomic, and the blocks are the functions below.
\<close>

subsection \<open>Exceptions, log lines, the environment\<close>

datatype exn =
  CircuitOpen          \<comment> \<open>\<^verbatim>\<open>Exception("Circuit breaker is OPEN")\<close>\<close>
  | ProviderError string \<comment> \<open>whatever the provider call raises\<close>
  | ZeroDivisionError
  | TypeError
  | ValueError

datatype log_event =
  BudgetAlert real               \<comment> \<open>llm-client: usage at or above 90 percent\<close>
  | UnknownModel string          \<comment> \<open>vertex: \<^verbatim>\<open>Unknown model ... for cost tracking\<close>\<close>
  | DailyBudgetExceeded real     \<comment> \<open>vertex: daily total above the budget\<close>
  | CostInfo real real real      \<comment> \<open>vertex: cost, daily total, lifetime total\<close>

record world =
  now :: real
  provider_calls :: nat
  jitter_draws :: nat


text \<open>\<^verbatim>\<open>asyncio.sleep(d)\<close>: a delay that is not positive returns at once.\<close>

definition asyncio_sleep :: "real \<Rightarrow> world \<Rightarrow> world" where
  "asyncio_sleep d w = (if d \<le> 0 then w else w\<lparr>now := now w + d\<rparr>)"



subsection \<open>llm-client: RateLimiter\<close>

record rate_limiter =
  calls_per_minute :: int
  tokens :: real
  max_tokens :: int
  last_refill :: real

definition RateLimiter_init :: "int \<Rightarrow> real \<Rightarrow> rate_limiter" where
  "RateLimiter_init cpm t =
     \<lparr>calls_per_minute = cpm, tokens = real_of_int cpm, max_tokens = cpm, last_refill = t\<rparr>"

definition refill :: "rate_limiter \<Rightarrow> real \<Rightarrow> rate_limiter" where
  "refill rl t =
     (let elapsed = t - last_refill rl;
          tokens_to_add = elapsed * (real_of_int (calls_per_minute rl) / 60)
      in rl\<lparr>tokens := min (real_of_int (max_tokens rl)) (tokens rl + tokens_to_add),
            last_refill := t\<rparr>)"

definition acquire :: "rate_limiter \<Rightarrow> real \<Rightarrow> bool \<times> rate_limiter" where
  "acquire rl t =
     (let rl1 = refill rl t
      in if tokens rl1 \<ge> 1 then (True, rl1\<lparr>tokens := tokens rl1 - 1\<rparr>)
         else (False, rl1))"

text \<open>A run of \<open>acquire\<close> calls at the clock readings \<open>ts\<close>.\<close>

fun acquire_all :: "rate_limiter \<Rightarrow> real list \<Rightarrow> rate_limiter" where
  "acquire_all rl [] = rl"
| "acquire_all rl (t # ts) = acquire_all (snd (acquire rl t)) ts"

subsection \<open>llm-client: CircuitBreaker\<close>

datatype breaker_state = CLOSED | OPEN | HALF_OPEN

record circuit_breaker =
  failure_threshold :: int
  timeout :: int
  failure_count :: int
  last_failure_time :: "real option"
  state :: breaker_state

definition CircuitBreaker_init :: "int \<Rightarrow> int \<Rightarrow> circuit_breaker" where
  "CircuitBreaker_init thr tmo =
     \<lparr>failure_threshold = thr, timeout = tmo, failure_count = 0,
      last_failure_time = None, state = CLOSED\<rparr>"

text \<open>
  The three locked blocks of \<^verbatim>\<open>CircuitBreaker.call\<close>: the admission check, the
  bookkeeping after a success, the bookkeeping after a failure. Subtracting
  \<^verbatim>\<open>None\<close> from a float is a TypeError.
\<close>

definition cb_admit :: "circuit_breaker \<Rightarrow> real \<Rightarrow> exn + circuit_breaker" where
  "cb_admit cb t =
     (if state cb = OPEN then
        (case last_failure_time cb of
           None \<Rightarrow> Inl TypeError
         | Some lf \<Rightarrow>
             if t - lf > real_of_int (timeout cb) then Inr (cb\<lparr>state := HALF_OPEN\<rparr>)
             else Inl CircuitOpen)
      else Inr cb)"

definition cb_on_success :: "circuit_breaker \<Rightarrow> circuit_breaker" where
  "cb_on_success cb = cb\<lparr>failure_count := 0, state := CLOSED\<rparr>"

definition cb_on_failure :: "circuit_breaker \<Rightarrow> real \<Rightarrow> circuit_breaker" where
  "cb_on_failure cb t =
     (let cb1 = cb\<lparr>failure_count := failure_count cb + 1, last_failure_time := Some t\<rparr>
      in if failure_count cb1 \<ge> failure_threshold cb1 then cb1\<lparr>state := OPEN\<rparr> else cb1)"

text \<open>
  \<^verbatim>\<open>CircuitBreaker.call(func, ...)\<close>. The wrapped operation acts on the world; it is
  applied only on the admitted path, and the exception it raises is raised again.
\<close>

definition CircuitBreaker_call ::
  "circuit_breaker \<Rightarrow> (world \<Rightarrow> (exn + 'a) \<times> world) \<Rightarrow> world
     \<Rightarrow> (exn + 'a) \<times> circuit_breaker \<times> world" where
  "CircuitBreaker_call cb func w =
     (case cb_admit cb (now w) of
        Inl e \<Rightarrow> (Inl e, cb, w)
      | Inr cb1 \<Rightarrow>
          (case func w of
             (Inr result, w') \<Rightarrow> (Inr result, cb_on_success cb1, w')
           | (Inl e, w') \<Rightarrow> (Inl e, cb_on_failure cb1 (now w'), w')))"

text \<open>Guarded calls one after another; the outcomes are dropped, the breaker is kept.\<close>

fun guarded_run ::
  "circuit_breaker \<Rightarrow> (world \<Rightarrow> (exn + 'a) \<times> world) list \<Rightarrow> world
     \<Rightarrow> circuit_breaker \<times> world" where
  "guarded_run cb [] w = (cb, w)"
| "guarded_run cb (f # fs) w =
     (case CircuitBreaker_call cb f w of (_, cb', w') \<Rightarrow> guarded_run cb' fs w')"

text \<open>
  The breaker states that can arise from a fresh breaker, by the three locked blocks in
  any order (which covers calls that overlap in time as well as calls in sequence).
\<close>

inductive cb_reachable :: "circuit_breaker \<Rightarrow> bool" where
  cb_init: "cb_reachable (CircuitBreaker_init thr tmo)"
| cb_step_admit: "cb_reachable cb \<Longrightarrow> cb_admit cb t = Inr cb' \<Longrightarrow> cb_reachable cb'"
| cb_step_success: "cb_reachable cb \<Longrightarrow> cb_reachable (cb_on_success cb)"
| cb_step_failure: "cb_reachable cb \<Longrightarrow> cb_reachable (cb_on_failure cb t)"

subsection \<open>llm-client: BudgetTracker\<close>

record budget_tracker =
  daily_budget :: real
  daily_spent :: real
  reset_time :: real
  model_costs :: "string \<rightharpoonup> real"

definition BudgetTracker_init :: "real \<Rightarrow> real \<Rightarrow> budget_tracker" where
  "BudgetTracker_init daily_budget_usd t =
     \<lparr>daily_budget = daily_budget_usd, daily_spent = 0, reset_time = t + 86400,
      model_costs = [''gemini-pro'' \<mapsto> 0.00025, ''gpt-4o'' \<mapsto> 0.03, ''claude-3'' \<mapsto> 0.015]\<rparr>"

definition reset_if_needed :: "budget_tracker \<Rightarrow> real \<Rightarrow> budget_tracker" where
  "reset_if_needed bt t =
     (if t > reset_time bt then bt\<lparr>daily_spent := 0, reset_time := t + 86400\<rparr> else bt)"


text \<open>
  \<^verbatim>\<open>record_usage(model, tokens)\<close> returns nothing; the model returns the lines it
  prints. The percentage divides by the budget, so a budget of zero raises after the
  spend has been added.
\<close>

definition record_usage ::
  "budget_tracker \<Rightarrow> string \<Rightarrow> int \<Rightarrow> real \<Rightarrow> (exn + log_event list) \<times> budget_tracker" where
  "record_usage bt model_name toks t =
     (let bt1 = reset_if_needed bt t;
          cost = (real_of_int toks / 1000) *
                 (case model_costs bt1 model_name of Some price \<Rightarrow> price | None \<Rightarrow> 0.01);
          bt2 = bt1\<lparr>daily_spent := daily_spent bt1 + cost\<rparr>
      in if daily_budget bt2 = 0 then (Inl ZeroDivisionError, bt2)
         else (let usage_pct = (daily_spent bt2 / daily_budget bt2) * 100
               in (Inr (if usage_pct \<ge> 90 then [BudgetAlert usage_pct] else []), bt2)))"

subsection \<open>Strings: lower, substring test, split\<close>

text \<open>
  Strings are byte lists; \<^verbatim>\<open>str.lower\<close> is modelled on the ASCII letters and
  \<^verbatim>\<open>str.split()\<close> on the ASCII white space.
\<close>

definition char_lower :: "char \<Rightarrow> char" where
  "char_lower c =
     (case map_of (zip ''ABCDEFGHIJKLMNOPQRSTUVWXYZ'' ''abcdefghijklmnopqrstuvwxyz'') c of
        Some d \<Rightarrow> d
      | None \<Rightarrow> c)"

definition lower :: "string \<Rightarrow> string" where
  "lower s = map char_lower s"

fun starts_with :: "string \<Rightarrow> string \<Rightarrow> bool" where
  "starts_with [] ys = True"
| "starts_with (x # xs) [] = False"
| "starts_with (x # xs) (y # ys) = (x = y \<and> starts_with xs ys)"

text \<open>\<open>contains sub s\<close> is Python's \<^verbatim>\<open>sub in s\<close>.\<close>

fun contains :: "string \<Rightarrow> string \<Rightarrow> bool" where
  "contains sub [] = (sub = [])"
| "contains sub (y # ys) = (starts_with sub (y # ys) \<or> contains sub ys)"

definition is_space :: "char \<Rightarrow> bool" where
  "is_space c =
     (c \<in> set [CHR 0x20, CHR 0x09, CHR 0x0A, CHR 0x0B, CHR 0x0C, CHR 0x0D,
                CHR 0x1C, CHR 0x1D, CHR 0x1E, CHR 0x1F])"

fun split_acc :: "string \<Rightarrow> string \<Rightarrow> string list" where
  "split_acc cur [] = (if cur = [] then [] else [rev cur])"
| "split_acc cur (c # cs) =
     (if is_space c then (if cur = [] then split_acc [] cs else rev cur # split_acc [] cs)
      else split_acc (c # cur) cs)"

definition split :: "string \<Rightarrow> string list" where
  "split s = split_acc [] s"

subsection \<open>The deterministic fallback\<close>

text \<open>
  The keyword chain is the same text in \<^verbatim>\<open>_deterministic_fallback\<close> and in
  \<^verbatim>\<open>VertexAIClient._fallback_response\<close>; it is written once here.
\<close>

definition rule_based_text :: "string \<Rightarrow> string" where
  "rule_based_text prompt =
     (let prompt_lower = lower prompt
      in if contains ''bundle'' prompt_lower then
           ''Suggested bundle: CRM+Support with expected uplift 8%''
         else if contains ''price'' prompt_lower \<or> contains ''pricing'' prompt_lower then
           ''Recommend Hybrid: $99 base + $0.10/workflow + $0.005/1k tokens''
         else if contains ''cost'' prompt_lower then
           ''Cost analysis complete. Median cost per customer: $47.50''
         else if contains ''compliance'' prompt_lower \<or> contains ''tax'' prompt_lower then
           ''Compliance check passed. VAT rates applied per region.''
         else if contains ''recommend'' prompt_lower then
           ''Recommendation: Proceed with tiered pricing strategy''
         else ''Analysis complete. Proceeding with standard configuration.'')"



text \<open>The dict returned by the Vertex client.\<close>

record call_result =
  response_text :: string
  tokens_input :: int
  tokens_output :: int
  model :: string
  cost_usd :: real
  finish_reason :: string
  source :: string

definition fallback_response :: "string \<Rightarrow> string \<Rightarrow> world \<Rightarrow> call_result \<times> world" where
  "fallback_response prompt model_name w =
     (let w' = asyncio_sleep 0.1 w;
          txt = rule_based_text prompt
      in (\<lparr>response_text = txt, tokens_input = int (length (split prompt)),
           tokens_output = int (length (split txt)), model = model_name, cost_usd = 0,
           finish_reason = ''FALLBACK'', source = ''fallback''\<rparr>, w'))"

subsection \<open>llm-client: call-llm\<close>



text \<open>The module's global instances and the world they live in.\<close>

record llm_state =
  rate_limiter :: rate_limiter
  circuit_breaker :: circuit_breaker
  budget_tracker :: budget_tracker
  world :: world







subsection \<open>Vertex client\<close>

record price =
  price_input :: real    \<comment> \<open>key \<^verbatim>\<open>"input"\<close>\<close>
  price_output :: real   \<comment> \<open>key \<^verbatim>\<open>"output"\<close>\<close>

record vertex_client =
  project_id :: string
  daily_budget_usd :: real
  force_fallback :: bool
  daily_costs :: "(string \<times> (string \<times> real) list) list"
  total_costs :: real
  rate_limit_tokens :: real
  max_tokens_v :: int
  tokens_per_minute :: int
  last_refill_v :: real
  failure_count_v :: int
  last_failure_time_v :: "real option"
  circuit_open :: bool
  model_costs_v :: "string \<rightharpoonup> price"
  vertex_ai_initialized :: bool

text \<open>
  The constructor. \<open>pid\<close> is the project id after the environment default (empty when
  there is none), \<open>sdk_ready\<close> says that the SDK was imported and
  \<^verbatim>\<open>vertexai.init\<close> did not raise, \<open>t\<close> is the clock.
\<close>

definition VertexAIClient_init :: "string \<Rightarrow> real \<Rightarrow> bool \<Rightarrow> bool \<Rightarrow> real \<Rightarrow> vertex_client" where
  "VertexAIClient_init pid budget forced sdk_ready t =
     \<lparr>project_id = pid, daily_budget_usd = budget, force_fallback = forced,
      daily_costs = [], total_costs = 0,
      rate_limit_tokens = 100, max_tokens_v = 100, tokens_per_minute = 100, last_refill_v = t,
      failure_count_v = 0, last_failure_time_v = None, circuit_open = False,
      model_costs_v = [''gemini-2.0-flash'' \<mapsto> \<lparr>price_input = 0.075, price_output = 0.30\<rparr>,
                       ''gemini-1.5-pro'' \<mapsto> \<lparr>price_input = 1.25, price_output = 5.00\<rparr>,
                       ''gemini-1.5-flash'' \<mapsto> \<lparr>price_input = 0.075, price_output = 0.30\<rparr>],
      vertex_ai_initialized = (sdk_ready \<and> pid \<noteq> [] \<and> \<not> forced)\<rparr>"

text \<open>
  \<^verbatim>\<open>_track_cost\<close>: the cost, the log lines, the client. The two steps of the source on
  the day's dict (enter the model at 0.0 when missing, then add) are one update here.
\<close>

definition track_cost ::
  "vertex_client \<Rightarrow> string \<Rightarrow> int \<Rightarrow> int \<Rightarrow> string \<Rightarrow> real \<times> log_event list \<times> vertex_client" where
  "track_cost c model_name input_tokens output_tokens today =
     (case model_costs_v c model_name of
        None \<Rightarrow> (0, [UnknownModel model_name], c)
      | Some costs \<Rightarrow>
          (let input_cost = (real_of_int input_tokens / 1000000) * price_input costs;
               output_cost = (real_of_int output_tokens / 1000000) * price_output costs;
               total_cost = input_cost + output_cost;
               day = (case map_of (daily_costs c) today of None \<Rightarrow> [] | Some d \<Rightarrow> d);
               spent = (case map_of day model_name of None \<Rightarrow> 0 | Some v \<Rightarrow> v);
               day' = AList.update model_name (spent + total_cost) day;
               c1 = c\<lparr>daily_costs := AList.update today day' (daily_costs c),
                      total_costs := total_costs c + total_cost\<rparr>;
               daily_total = sum_list (map snd day')
           in (total_cost,
               (if daily_total > daily_budget_usd c1 then [DailyBudgetExceeded daily_total] else [])
                 @ [CostInfo total_cost daily_total (total_costs c1)],
               c1)))"

text \<open>
  \<^verbatim>\<open>_rate_limit_acquire\<close>: returns nothing; when no token is left it sleeps and goes
  on. The division is by \<^verbatim>\<open>tokens_per_minute / 60.0\<close>.
\<close>

definition rate_limit_acquire ::
  "vertex_client \<Rightarrow> world \<Rightarrow> (exn + unit) \<times> vertex_client \<times> world" where
  "rate_limit_acquire c w =
     (let t = now w;
          elapsed = t - last_refill_v c;
          tokens_to_add = elapsed * (real_of_int (tokens_per_minute c) / 60);
          c1 = c\<lparr>rate_limit_tokens :=
                   min (real_of_int (max_tokens_v c)) (rate_limit_tokens c + tokens_to_add),
                 last_refill_v := t\<rparr>
      in if rate_limit_tokens c1 \<ge> 1 then
           (Inr (), c1\<lparr>rate_limit_tokens := rate_limit_tokens c1 - 1\<rparr>, w)
         else if real_of_int (tokens_per_minute c1) / 60 = 0 then (Inl ZeroDivisionError, c1, w)
         else
           (let wait_time = (1 - rate_limit_tokens c1) / (real_of_int (tokens_per_minute c1) / 60)
            in (Inr (), c1\<lparr>rate_limit_tokens := 0\<rparr>, asyncio_sleep wait_time w)))"











subsection \<open>Vocabulary of the statements, sample values\<close>

text \<open>Operations that fail, or succeed, wherever they are called.\<close>

definition always_fails :: "(world \<Rightarrow> (exn + 'a) \<times> world) \<Rightarrow> bool" where
  "always_fails f = (\<forall>w. isl (fst (f w)))"

definition always_succeeds :: "(world \<Rightarrow> (exn + 'a) \<times> world) \<Rightarrow> bool" where
  "always_succeeds f = (\<forall>w. \<not> isl (fst (f w)))"

text \<open>
  The specification's words for the limiter: refill to
  \<open>min(capacity, tokens + elapsed_seconds * (capacity / 60))\<close>, then take one token when at
  least one is there. The result is the grant and the tokens left.
\<close>

definition spec_acquire :: "real \<Rightarrow> real \<Rightarrow> real \<Rightarrow> bool \<times> real" where
  "spec_acquire capacity toks elapsed_seconds =
     (let refilled = min capacity (toks + elapsed_seconds * (capacity / 60))
      in if refilled \<ge> 1 then (True, refilled - 1) else (False, refilled))"

text \<open>The bucket of the Vertex client after its refill, as the source computes it.\<close>

definition vertex_refilled :: "vertex_client \<Rightarrow> world \<Rightarrow> real" where
  "vertex_refilled c w =
     min (real_of_int (max_tokens_v c))
       (rate_limit_tokens c + (now w - last_refill_v c) * (real_of_int (tokens_per_minute c) / 60))"

definition world0 :: world where
  "world0 = \<lparr>now = 0, provider_calls = 0, jitter_draws = 0\<rparr>"

definition fail_op :: "world \<Rightarrow> (exn + nat) \<times> world" where
  "fail_op w = (Inl (ProviderError ''down''), w)"

definition ok_op :: "world \<Rightarrow> (exn + nat) \<times> world" where
  "ok_op w = (Inr 7, w)"

definition probe_ok :: "world \<Rightarrow> (exn + nat) \<times> world" where
  "probe_ok w = (Inr 7, w\<lparr>now := now w + 1, provider_calls := Suc (provider_calls w)\<rparr>)"

definition opened_breaker :: circuit_breaker where
  "opened_breaker =
     \<lparr>failure_threshold = 3, timeout = 60, failure_count = 3,
      last_failure_time = Some 100, state = OPEN\<rparr>"

definition drained_client :: vertex_client where
  "drained_client = (VertexAIClient_init ''proj'' 100 False True 0)\<lparr>rate_limit_tokens := 0\<rparr>"















section \<open>Properties\<close>

subsection \<open>The fallback generator\<close>


subsection \<open>The token bucket\<close>

lemma acquire_fields:
  "max_tokens (snd (acquire rl t)) = max_tokens rl"
  "calls_per_minute (snd (acquire rl t)) = calls_per_minute rl"
  "last_refill (snd (acquire rl t)) = t"
  by (simp_all add: acquire_def refill_def Let_def)

lemma acquire_upper: "tokens (snd (acquire rl t)) \<le> real_of_int (max_tokens rl)"
  by (simp add: acquire_def refill_def Let_def min_def)

lemma refill_lower:
  assumes "0 \<le> tokens rl" "0 \<le> max_tokens rl" "0 \<le> calls_per_minute rl" "last_refill rl \<le> t"
  shows "0 \<le> tokens (refill rl t)"
proof -
  have "0 \<le> (t - last_refill rl) * (real_of_int (calls_per_minute rl) / 60)"
    using assms by simp
  then show ?thesis using assms by (simp add: refill_def Let_def)
qed

lemma acquire_lower:
  assumes "0 \<le> tokens rl" "0 \<le> max_tokens rl" "0 \<le> calls_per_minute rl" "last_refill rl \<le> t"
  shows "0 \<le> tokens (snd (acquire rl t))"
  using refill_lower [OF assms] by (simp add: acquire_def Let_def)

lemma acquire_all_bounds:
  assumes "0 \<le> tokens rl" "tokens rl \<le> real_of_int (max_tokens rl)"
    "0 \<le> calls_per_minute rl" "sorted (last_refill rl # ts)"
  shows "0 \<le> tokens (acquire_all rl ts) \<and>
         tokens (acquire_all rl ts) \<le> real_of_int (max_tokens rl)"
  using assms
proof (induction ts arbitrary: rl)
  case Nil
  then show ?case by simp
next
  case (Cons t ts)
  let ?rl' = "snd (acquire rl t)"
  have mt: "0 \<le> max_tokens rl" using Cons.prems(1,2) by linarith
  have le: "last_refill rl \<le> t" using Cons.prems(4) by simp
  have 1: "0 \<le> tokens ?rl'" using acquire_lower [OF Cons.prems(1) mt Cons.prems(3) le] .
  have 2: "tokens ?rl' \<le> real_of_int (max_tokens ?rl')"
    by (simp add: acquire_upper acquire_fields)
  have 3: "0 \<le> calls_per_minute ?rl'" using Cons.prems(3) by (simp add: acquire_fields)
  have 4: "sorted (last_refill ?rl' # ts)" using Cons.prems(4) by (simp add: acquire_fields)
  show ?case using Cons.IH [OF 1 2 3 4] by (simp add: acquire_fields)
qed

text \<open>
  Claim C7. A limiter built for a capacity \<open>cpm\<close> that is not negative, at time \<open>t0\<close>,
  and asked at the clock readings \<open>ts\<close>, which never go back: after each of the calls
  (every prefix \<open>take k ts\<close>) the token count is between 0 and the capacity.
\<close>

theorem token_bucket_bound:
  assumes "0 \<le> cpm" "sorted (t0 # ts)" "k \<le> length ts"
  shows "0 \<le> tokens (acquire_all (RateLimiter_init cpm t0) (take k ts)) \<and>
         tokens (acquire_all (RateLimiter_init cpm t0) (take k ts)) \<le> real_of_int cpm"
proof -
  have s: "sorted (last_refill (RateLimiter_init cpm t0) # take k ts)"
    using assms(2) by (auto simp: RateLimiter_init_def dest: in_set_takeD intro: sorted_wrt_take)
  show ?thesis
    using acquire_all_bounds [of "RateLimiter_init cpm t0" "take k ts"] s assms(1)
    by (simp add: RateLimiter_init_def)
qed

theorem token_bucket_bound_witness:
  "0 \<le> tokens (acquire_all (RateLimiter_init 2 0) (take 3 [0, 0, 0, 45])) \<and>
   tokens (acquire_all (RateLimiter_init 2 0) (take 3 [0, 0, 0, 45])) \<le> real_of_int 2"
  using token_bucket_bound [of 2 0 "[0, 0, 0, 45]" 3] by simp

lemma acquire_all_fields:
  "max_tokens (acquire_all rl ts) = max_tokens rl"
  "calls_per_minute (acquire_all rl ts) = calls_per_minute rl"
  by (induction ts arbitrary: rl) (simp_all add: acquire_def refill_def Let_def)

lemma acquire_spec:
  assumes "max_tokens rl = calls_per_minute rl"
  shows "acquire rl t =
     (fst (spec_acquire (real_of_int (max_tokens rl)) (tokens rl) (t - last_refill rl)),
      rl\<lparr>tokens := snd (spec_acquire (real_of_int (max_tokens rl)) (tokens rl) (t - last_refill rl)),
         last_refill := t\<rparr>)"
  using assms by (simp add: acquire_def refill_def spec_acquire_def Let_def)

text \<open>
  Claim C8, as stated, at the Vertex client's limiter: with an empty bucket and no time
  elapsed, \<open>rate_limit_acquire\<close> does not deny. It sleeps 0.6 seconds (the clock moves
  from 0 to 3/5) and returns normally.
\<close>

theorem acquire_refill_then_take_counterexample:
  "rate_limit_acquire drained_client world0 = (Inr (), drained_client, world0\<lparr>now := 3 / 5\<rparr>)"
  by (simp add: rate_limit_acquire_def drained_client_def world0_def VertexAIClient_init_def
      asyncio_sleep_def Let_def)

text \<open>
  Claim C8, amended. In every state \<open>rl\<close> of a \<open>RateLimiter\<close> (a fresh one after any run
  of calls), \<open>acquire\<close> is the specification's refill-then-take: granted with one token
  taken when the refilled count is at least 1, denied otherwise, with no sleep (the
  function has no access to the clock). The Vertex client's limiter refills the same way
  and takes one token when the refilled count is at least 1; otherwise it sleeps
  \<open>(1 - refilled) / (tokens_per_minute / 60)\<close> seconds, sets the count to 0 and returns
  normally: it never denies.
\<close>

theorem acquire_refill_then_take:
  "(rl = acquire_all (RateLimiter_init cpm t0) ts \<longrightarrow>
      acquire rl t =
        (fst (spec_acquire (real_of_int cpm) (tokens rl) (t - last_refill rl)),
         rl\<lparr>tokens := snd (spec_acquire (real_of_int cpm) (tokens rl) (t - last_refill rl)),
            last_refill := t\<rparr>))
   \<and> (vertex_refilled c w \<ge> 1 \<longrightarrow>
      rate_limit_acquire c w =
        (Inr (), c\<lparr>rate_limit_tokens := vertex_refilled c w - 1, last_refill_v := now w\<rparr>, w))
   \<and> (vertex_refilled c w < 1 \<and> tokens_per_minute c \<noteq> 0 \<longrightarrow>
      rate_limit_acquire c w =
        (Inr (), c\<lparr>rate_limit_tokens := 0, last_refill_v := now w\<rparr>,
         asyncio_sleep ((1 - vertex_refilled c w) / (real_of_int (tokens_per_minute c) / 60)) w))"
proof -
  have 1: "acquire rl t =
        (fst (spec_acquire (real_of_int cpm) (tokens rl) (t - last_refill rl)),
         rl\<lparr>tokens := snd (spec_acquire (real_of_int cpm) (tokens rl) (t - last_refill rl)),
            last_refill := t\<rparr>)" if "rl = acquire_all (RateLimiter_init cpm t0) ts"
  proof -
    have "max_tokens rl = cpm" "calls_per_minute rl = cpm"
      using that by (simp_all add: acquire_all_fields RateLimiter_init_def)
    then show ?thesis using acquire_spec [of rl t] by simp
  qed
  have 2: "rate_limit_acquire c w =
        (Inr (), c\<lparr>rate_limit_tokens := vertex_refilled c w - 1, last_refill_v := now w\<rparr>, w)"
    if "vertex_refilled c w \<ge> 1"
    using that by (simp add: rate_limit_acquire_def vertex_refilled_def Let_def)
  have 3: "rate_limit_acquire c w =
        (Inr (), c\<lparr>rate_limit_tokens := 0, last_refill_v := now w\<rparr>,
         asyncio_sleep ((1 - vertex_refilled c w) / (real_of_int (tokens_per_minute c) / 60)) w)"
    if lt: "vertex_refilled c w < 1" and nz: "tokens_per_minute c \<noteq> 0"
  proof -
    from lt have "\<not> 1 \<le> vertex_refilled c w" by simp
    then show ?thesis using nz
      by (auto simp: rate_limit_acquire_def vertex_refilled_def Let_def)
  qed
  show ?thesis using 1 2 3 by blast
qed

theorem acquire_refill_then_take_witness:
  "acquire (RateLimiter_init 2 0) 30 =
     (True, \<lparr>calls_per_minute = 2, tokens = 1, max_tokens = 2, last_refill = 30\<rparr>)
   \<and> rate_limit_acquire (VertexAIClient_init ''proj'' 100 False True 0) world0
       = (Inr (), (VertexAIClient_init ''proj'' 100 False True 0)\<lparr>rate_limit_tokens := 99\<rparr>, world0)
   \<and> rate_limit_acquire drained_client world0 = (Inr (), drained_client, world0\<lparr>now := 3 / 5\<rparr>)"
  using acquire_refill_then_take [of "RateLimiter_init 2 0" 2 0 "[]" 30
        "VertexAIClient_init ''proj'' 100 False True 0" world0]
    acquire_refill_then_take [of "RateLimiter_init 2 0" 2 0 "[]" 30 drained_client world0]
  by (simp add: RateLimiter_init_def spec_acquire_def vertex_refilled_def VertexAIClient_init_def
      world0_def drained_client_def asyncio_sleep_def)

subsection \<open>The circuit breaker\<close>

lemma call_closed_failure:
  assumes "state cb = CLOSED" "isl (fst (f w))"
  shows "fst (snd (CircuitBreaker_call cb f w)) = cb_on_failure cb (now (snd (f w)))"
  using assms
  by (cases "f w"; cases "fst (f w)") (auto simp: CircuitBreaker_call_def cb_admit_def)

lemma call_closed_success:
  assumes "state cb = CLOSED" "\<not> isl (fst (f w))"
  shows "fst (snd (CircuitBreaker_call cb f w)) = cb_on_success cb"
  using assms
  by (cases "f w"; cases "fst (f w)") (auto simp: CircuitBreaker_call_def cb_admit_def)

lemma guarded_run_failures_below:
  assumes "state cb = CLOSED" "list_all always_fails fs"
    "failure_count cb + int (length fs) < failure_threshold cb"
  shows "state (fst (guarded_run cb fs w)) = CLOSED \<and>
         failure_count (fst (guarded_run cb fs w)) = failure_count cb + int (length fs) \<and>
         failure_threshold (fst (guarded_run cb fs w)) = failure_threshold cb"
  using assms
proof (induction fs arbitrary: cb w)
  case Nil
  then show ?case by simp
next
  case (Cons f fs)
  obtain r cb' w' where c: "CircuitBreaker_call cb f w = (r, cb', w')"
    by (cases "CircuitBreaker_call cb f w") auto
  have fl: "isl (fst (f w))" using Cons.prems(2) by (simp add: always_fails_def)
  have cb': "cb' = cb_on_failure cb (now (snd (f w)))"
    using call_closed_failure [of cb f w] Cons.prems(1) fl c by simp
  have st: "state cb' = CLOSED" "failure_count cb' = failure_count cb + 1"
    "failure_threshold cb' = failure_threshold cb"
    using Cons.prems(1,3) by (auto simp: cb' cb_on_failure_def Let_def)
  have "state (fst (guarded_run cb' fs w')) = CLOSED \<and>
        failure_count (fst (guarded_run cb' fs w')) = failure_count cb' + int (length fs) \<and>
        failure_threshold (fst (guarded_run cb' fs w')) = failure_threshold cb'"
    using Cons.IH [of cb' w'] st Cons.prems(2,3) by simp
  then show ?case using c st by simp
qed

lemma guarded_run_append:
  "guarded_run cb (fs @ gs) w =
     guarded_run (fst (guarded_run cb fs w)) gs (snd (guarded_run cb fs w))"
  by (induction fs arbitrary: cb w) (auto split: prod.splits)

text \<open>
  Claim C4. A fresh breaker with a threshold of at least 1, guarding operations \<open>fs\<close>
  that all fail: below the threshold it is CLOSED and has counted the failures; at
  exactly \<open>failure_threshold\<close> failures it is OPEN; and one success after fewer failures
  than the threshold leaves it CLOSED with the count at zero.
\<close>

theorem circuit_opens_at_threshold:
  assumes "1 \<le> thr" "list_all always_fails fs"
  shows "(int (length fs) < thr \<longrightarrow>
            state (fst (guarded_run (CircuitBreaker_init thr tmo) fs w)) = CLOSED \<and>
            failure_count (fst (guarded_run (CircuitBreaker_init thr tmo) fs w)) = int (length fs))
       \<and> (int (length fs) = thr \<longrightarrow>
            state (fst (guarded_run (CircuitBreaker_init thr tmo) fs w)) = OPEN)
       \<and> (int (length fs) < thr \<and> always_succeeds g \<longrightarrow>
            state (fst (guarded_run (CircuitBreaker_init thr tmo) (fs @ [g]) w)) = CLOSED \<and>
            failure_count (fst (guarded_run (CircuitBreaker_init thr tmo) (fs @ [g]) w)) = 0)"
proof -
  let ?init = "CircuitBreaker_init thr tmo"
  have i: "state ?init = CLOSED" "failure_count ?init = 0" "failure_threshold ?init = thr"
    by (simp_all add: CircuitBreaker_init_def)
  have below: "state (fst (guarded_run ?init fs w)) = CLOSED \<and>
        failure_count (fst (guarded_run ?init fs w)) = int (length fs) \<and>
        failure_threshold (fst (guarded_run ?init fs w)) = thr"
    if "int (length fs) < thr"
    using guarded_run_failures_below [of ?init fs w] i assms(2) that by simp
  have at: "state (fst (guarded_run ?init fs w)) = OPEN" if eq: "int (length fs) = thr"
  proof -
    from eq assms(1) have ne: "fs \<noteq> []" by auto
    then obtain gs f where fs: "fs = gs @ [f]" by (metis rev_exhaust)
    let ?cb = "fst (guarded_run ?init gs w)" and ?w = "snd (guarded_run ?init gs w)"
    have gsf: "list_all always_fails gs" "always_fails f" using assms(2) fs by simp_all
    have lt: "failure_count ?init + int (length gs) < failure_threshold ?init"
      using eq fs i by simp
    have b: "state ?cb = CLOSED" "failure_count ?cb = int (length gs)"
      "failure_threshold ?cb = thr"
      using guarded_run_failures_below [of ?init gs w] i gsf(1) lt by simp_all
    have fl: "isl (fst (f ?w))" using gsf(2) by (simp add: always_fails_def)
    have "fst (snd (CircuitBreaker_call ?cb f ?w)) = cb_on_failure ?cb (now (snd (f ?w)))"
      using call_closed_failure [of ?cb f ?w] b(1) fl by simp
    moreover have "state (cb_on_failure ?cb t) = OPEN" for t
      using b eq fs by (simp add: cb_on_failure_def Let_def)
    ultimately show ?thesis
      by (auto simp: fs guarded_run_append split: prod.splits)
  qed
  have succ: "state (fst (guarded_run ?init (fs @ [g]) w)) = CLOSED \<and>
              failure_count (fst (guarded_run ?init (fs @ [g]) w)) = 0"
    if lt: "int (length fs) < thr" and g: "always_succeeds g"
  proof -
    let ?cb = "fst (guarded_run ?init fs w)" and ?w = "snd (guarded_run ?init fs w)"
    have b: "state ?cb = CLOSED" using below [OF lt] by simp
    have ok: "\<not> isl (fst (g ?w))" using g by (simp add: always_succeeds_def)
    have "fst (snd (CircuitBreaker_call ?cb g ?w)) = cb_on_success ?cb"
      using call_closed_success [of ?cb g ?w] b ok by simp
    then show ?thesis
      by (auto simp: guarded_run_append cb_on_success_def split: prod.splits)
  qed
  show ?thesis using below at succ by blast
qed

theorem circuit_opens_at_threshold_witness:
  "state (fst (guarded_run (CircuitBreaker_init 2 60) [fail_op, fail_op] world0)) = OPEN
   \<and> state (fst (guarded_run (CircuitBreaker_init 2 60) [fail_op] world0)) = CLOSED
   \<and> failure_count (fst (guarded_run (CircuitBreaker_init 2 60) [fail_op] world0)) = 1
   \<and> failure_count (fst (guarded_run (CircuitBreaker_init 2 60) [fail_op, ok_op] world0)) = 0"
  using circuit_opens_at_threshold [of 2 "[fail_op, fail_op]" 60 world0 ok_op]
    circuit_opens_at_threshold [of 2 "[fail_op]" 60 world0 ok_op]
  by (simp add: always_fails_def always_succeeds_def fail_op_def ok_op_def)

text \<open>
  Claim C5. A breaker that is OPEN, with its failure timestamp \<open>lf\<close>: while no more than
  \<open>timeout\<close> seconds have passed since \<open>lf\<close>, the guard raises the breaker-open
  exception and leaves breaker and world as they were, whatever the operation is (it is
  not applied). Once more than \<open>timeout\<close> seconds have passed, the state moves to
  HALF_OPEN and the operation is applied once, to the world of the call.
\<close>

theorem open_breaker_guard:
  assumes "state cb = OPEN" "last_failure_time cb = Some lf"
  shows "(\<not> (now w - lf > real_of_int (timeout cb)) \<longrightarrow>
            CircuitBreaker_call cb func w = (Inl CircuitOpen, cb, w))
       \<and> (now w - lf > real_of_int (timeout cb) \<longrightarrow>
            cb_admit cb (now w) = Inr (cb\<lparr>state := HALF_OPEN\<rparr>) \<and>
            CircuitBreaker_call cb func w =
              (case func w of
                 (Inr result, w') \<Rightarrow> (Inr result, cb_on_success (cb\<lparr>state := HALF_OPEN\<rparr>), w')
               | (Inl e, w') \<Rightarrow>
                   (Inl e, cb_on_failure (cb\<lparr>state := HALF_OPEN\<rparr>) (now w'), w')))"
  using assms by (simp add: CircuitBreaker_call_def cb_admit_def)

theorem open_breaker_guard_witness:
  "CircuitBreaker_call opened_breaker probe_ok (world0\<lparr>now := 159\<rparr>)
     = (Inl CircuitOpen, opened_breaker, world0\<lparr>now := 159\<rparr>)
   \<and> CircuitBreaker_call opened_breaker probe_ok (world0\<lparr>now := 161\<rparr>)
     = (Inr 7, opened_breaker\<lparr>failure_count := 0, state := CLOSED\<rparr>,
        world0\<lparr>now := 162, provider_calls := 1\<rparr>)"
  using open_breaker_guard [of opened_breaker 100 "world0\<lparr>now := 159\<rparr>" probe_ok]
    open_breaker_guard [of opened_breaker 100 "world0\<lparr>now := 161\<rparr>" probe_ok]
  by (simp add: opened_breaker_def probe_ok_def cb_on_success_def world0_def)

lemma cb_reachable_inv:
  "cb_reachable cb \<Longrightarrow> state cb = CLOSED \<or> failure_threshold cb \<le> failure_count cb"
proof (induction rule: cb_reachable.induct)
  case (cb_init thr tmo)
  then show ?case by (simp add: CircuitBreaker_init_def)
next
  case (cb_step_admit cb t cb')
  then show ?case
    by (auto simp: cb_admit_def split: if_splits option.splits)
next
  case (cb_step_success cb)
  then show ?case by (simp add: cb_on_success_def)
next
  case (cb_step_failure cb t)
  then show ?case by (auto simp: cb_on_failure_def Let_def)
qed

lemma half_open_reachable_example:
  "cb_reachable (cb_on_failure (CircuitBreaker_init 1 60) 0\<lparr>state := HALF_OPEN\<rparr>)"
proof -
  have "cb_reachable (cb_on_failure (CircuitBreaker_init 1 60) 0)"
    by (intro cb_step_failure cb_init)
  moreover have "cb_admit (cb_on_failure (CircuitBreaker_init 1 60) 0) 61
     = Inr (cb_on_failure (CircuitBreaker_init 1 60) 0\<lparr>state := HALF_OPEN\<rparr>)"
    by (simp add: cb_admit_def cb_on_failure_def CircuitBreaker_init_def)
  ultimately show ?thesis by (rule cb_step_admit)
qed

text \<open>
  Claim C6. In every HALF_OPEN state that a fresh breaker can reach, the bookkeeping of
  a successful trial gives CLOSED with the failure count at zero, and the bookkeeping of
  a failed trial at time \<open>t\<close> gives OPEN with the failure timestamp set to \<open>t\<close>. (A
  reachable state that is not CLOSED has its count at the threshold or above, so the
  count after the failed trial is above it.)
\<close>

theorem half_open_trial:
  assumes "cb_reachable cb" "state cb = HALF_OPEN"
  shows "state (cb_on_success cb) = CLOSED \<and> failure_count (cb_on_success cb) = 0 \<and>
         state (cb_on_failure cb t) = OPEN \<and> last_failure_time (cb_on_failure cb t) = Some t"
  using cb_reachable_inv [OF assms(1)] assms(2)
  by (auto simp: cb_on_success_def cb_on_failure_def Let_def)

theorem half_open_trial_witness:
  "state (cb_on_success (cb_on_failure (CircuitBreaker_init 1 60) 0\<lparr>state := HALF_OPEN\<rparr>)) = CLOSED \<and>
   failure_count (cb_on_success (cb_on_failure (CircuitBreaker_init 1 60) 0\<lparr>state := HALF_OPEN\<rparr>)) = 0 \<and>
   state (cb_on_failure (cb_on_failure (CircuitBreaker_init 1 60) 0\<lparr>state := HALF_OPEN\<rparr>) 75) = OPEN \<and>
   last_failure_time (cb_on_failure (cb_on_failure (CircuitBreaker_init 1 60) 0\<lparr>state := HALF_OPEN\<rparr>) 75)
     = Some 75"
  using half_open_trial [OF half_open_reachable_example, of 75]
  by (simp add: cb_on_failure_def CircuitBreaker_init_def)

subsection \<open>Cost of an unknown model\<close>

text \<open>
  Claim C9, as stated, at the llm-client's tracker: \<open>mystery-model\<close> is not in the price
  table, and recording 1000 tokens for it adds 0.01 to the day's spend, with no log line.
\<close>

theorem unknown_model_cost_counterexample:
  "model_costs (BudgetTracker_init 100 0) ''mystery-model'' = None \<and>
   record_usage (BudgetTracker_init 100 0) ''mystery-model'' 1000 5 =
     (Inr [], (BudgetTracker_init 100 0)\<lparr>daily_spent := 1 / 100\<rparr>)"
  by (simp add: record_usage_def BudgetTracker_init_def reset_if_needed_def Let_def)

text \<open>
  Claim C9, amended. For a model that is not in the Vertex client's price table,
  \<open>track_cost\<close> returns 0, logs the unknown model and leaves the client (its spend
  included) as it was. For a model that is not in the llm-client's price table,
  \<open>record_usage\<close> charges the default price of 0.01 per 1000 tokens to the day's spend.
\<close>

theorem unknown_model_cost:
  "(model_costs_v c m = None \<longrightarrow>
      track_cost c m input_tokens output_tokens today = (0, [UnknownModel m], c))
   \<and> (model_costs bt m = None \<longrightarrow>
      daily_spent (snd (record_usage bt m toks t)) =
        daily_spent (reset_if_needed bt t) + (real_of_int toks / 1000) * 0.01)"
  by (simp add: track_cost_def record_usage_def reset_if_needed_def Let_def)

theorem unknown_model_cost_witness:
  "track_cost (VertexAIClient_init ''proj'' 100 False True 0) ''mystery-model'' 1000 1000
       ''2025-01-01''
     = (0, [UnknownModel ''mystery-model''], VertexAIClient_init ''proj'' 100 False True 0)
   \<and> daily_spent (snd (record_usage (BudgetTracker_init 100 0) ''mystery-model'' 1000 5)) = 1 / 100"
  using unknown_model_cost [of "VertexAIClient_init ''proj'' 100 False True 0" "''mystery-model''"
      1000 1000 "''2025-01-01''" "BudgetTracker_init 100 0" 1000 5]
  by (simp add: VertexAIClient_init_def BudgetTracker_init_def reset_if_needed_def)

subsection \<open>The Vertex client's breaker flag\<close>

lemma fallback_response_eq:
  "fallback_response prompt model_name w =
     (fst (fallback_response prompt model_name w0), asyncio_sleep 0.1 w)"
  by (simp add: fallback_response_def Let_def)









subsection \<open>The call operations\<close>













































end
